theory Spec2Isabelle
  imports Main "HOL-Library.Sublist"
begin

section \<open>Strings of the Go runtime\<close>

text \<open>
  A Go string is a sequence of bytes, here a \<^typ>\<open>string\<close>. The two functions of package
  \<^verbatim>\<open>strings\<close> that \<^verbatim>\<open>Policy.IsNull\<close> calls are modelled on bytes.

  \<^verbatim>\<open>strings.TrimSpace\<close> removes the leading and then the trailing runes that
  \<^verbatim>\<open>unicode.IsSpace\<close> accepts (its loop over ASCII bytes is a shortcut to the same
  result). Those are the code points of Unicode's White_Space property: U+0009 to U+000D,
  U+0020, U+0085, U+00A0, U+1680, U+2000 to U+200A, U+2028, U+2029, U+202F, U+205F and
  U+3000, listed below in their UTF-8 encoding. A byte sequence that is not one of these
  encodings (also an invalid one) decodes to a rune that is not white space, and stops
  the trimming.
\<close>

definition spaceRunes :: "string list" where
  "spaceRunes =
    [[CHR 0x09], [CHR 0x0A], [CHR 0x0B], [CHR 0x0C], [CHR 0x0D], [CHR 0x20],
     [CHR 0xC2, CHR 0x85], [CHR 0xC2, CHR 0xA0],
     [CHR 0xE1, CHR 0x9A, CHR 0x80],
     [CHR 0xE2, CHR 0x80, CHR 0x80], [CHR 0xE2, CHR 0x80, CHR 0x81],
     [CHR 0xE2, CHR 0x80, CHR 0x82], [CHR 0xE2, CHR 0x80, CHR 0x83],
     [CHR 0xE2, CHR 0x80, CHR 0x84], [CHR 0xE2, CHR 0x80, CHR 0x85],
     [CHR 0xE2, CHR 0x80, CHR 0x86], [CHR 0xE2, CHR 0x80, CHR 0x87],
     [CHR 0xE2, CHR 0x80, CHR 0x88], [CHR 0xE2, CHR 0x80, CHR 0x89],
     [CHR 0xE2, CHR 0x80, CHR 0x8A],
     [CHR 0xE2, CHR 0x80, CHR 0xA8], [CHR 0xE2, CHR 0x80, CHR 0xA9],
     [CHR 0xE2, CHR 0x80, CHR 0xAF], [CHR 0xE2, CHR 0x81, CHR 0x9F],
     [CHR 0xE3, CHR 0x80, CHR 0x80]]"

text \<open>The number of bytes of the white-space rune a string starts (ends) with, 0 when
  its first (last) rune is not white space.\<close>

definition leadingSpace :: "string \<Rightarrow> nat" where
  "leadingSpace s =
     (case find (\<lambda>w. prefix w s) spaceRunes of None \<Rightarrow> 0 | Some w \<Rightarrow> length w)"

definition trailingSpace :: "string \<Rightarrow> nat" where
  "trailingSpace s =
     (case find (\<lambda>w. suffix w s) spaceRunes of None \<Rightarrow> 0 | Some w \<Rightarrow> length w)"

function TrimLeft :: "string \<Rightarrow> string" where
  "TrimLeft s = (if leadingSpace s = 0 then s else TrimLeft (drop (leadingSpace s) s))"
  by pat_completeness auto
termination
proof (relation "measure length")
  show "wf (measure length)"
    by simp
next
  fix s :: string
  assume pos: "leadingSpace s \<noteq> 0"
  have "leadingSpace [] = 0"
    by (simp add: leadingSpace_def spaceRunes_def)
  with pos have "s \<noteq> []"
    by auto
  with pos show "(drop (leadingSpace s) s, s) \<in> measure length"
    by simp
qed

function TrimRight :: "string \<Rightarrow> string" where
  "TrimRight s =
     (if trailingSpace s = 0 then s else TrimRight (take (length s - trailingSpace s) s))"
  by pat_completeness auto
termination
proof (relation "measure length")
  show "wf (measure length)"
    by simp
next
  fix s :: string
  assume pos: "trailingSpace s \<noteq> 0"
  have "trailingSpace [] = 0"
    by (simp add: trailingSpace_def spaceRunes_def)
  with pos have "s \<noteq> []"
    by auto
  with pos show "(take (length s - trailingSpace s) s, s) \<in> measure length"
    by simp
qed

declare TrimLeft.simps [simp del] TrimRight.simps [simp del]

definition TrimSpace :: "string \<Rightarrow> string" where
  "TrimSpace s = TrimRight (TrimLeft s)"

text \<open>
  \<^verbatim>\<open>strings.ToUpper\<close> has two paths. A string of ASCII bytes only has its letters
  \<^verbatim>\<open>a\<close> to \<^verbatim>\<open>z\<close> moved to upper case, byte by byte. A string with a byte from
  \<^verbatim>\<open>0x80\<close> on is mapped rune by rune through \<^verbatim>\<open>unicode.ToUpper\<close>; the case tables of
  Unicode are no part of this program, so that path is the parameter \<open>up\<close> of the model,
  and everything proved holds for any such mapping.
\<close>

definition isASCII :: "char \<Rightarrow> bool" where
  "isASCII c = (of_char c < (0x80::nat))"

definition upperByte :: "char \<Rightarrow> char" where
  "upperByte c =
     (if of_char CHR ''a'' \<le> (of_char c :: nat) \<and> (of_char c :: nat) \<le> of_char CHR ''z''
      then char_of (of_char c - (32::nat)) else c)"

definition ToUpper :: "(string \<Rightarrow> string) \<Rightarrow> string \<Rightarrow> string" where
  "ToUpper up s = (if list_all isASCII s then map upperByte s else up s)"

section \<open>Package nulls: the policy\<close>

record Policy =
  TreatBlanks :: bool
  TreatNA :: bool
  TreatNULLLiteral :: bool

definition IsNull :: "(string \<Rightarrow> string) \<Rightarrow> Policy \<Rightarrow> string \<Rightarrow> bool" where
  "IsNull up p s =
     (let trimmed = TrimSpace s in
      if TreatBlanks p \<and> trimmed = '''' then True
      else
        let upper = ToUpper up trimmed in
        if TreatNA p \<and> (upper = ''NA'' \<or> upper = ''N/A'') then True
        else if TreatNULLLiteral p \<and> upper = ''NULL'' then True
        else False)"

section \<open>Package csvio: width normalisation\<close>

text \<open>
  A Go function either returns or panics. \<^verbatim>\<open>width\<close> is an \<^verbatim>\<open>int\<close>, and
  \<^verbatim>\<open>make([]string, width)\<close> panics at run time for a negative \<^verbatim>\<open>width\<close>.

  \<^verbatim>\<open>normalizeRow\<close> is not exported, and each of its callers passes \<^verbatim>\<open>len(headers)\<close>:
  the width is the length of a slice that exists. The lists of the model stand for such
  slices and have any length; the bound of the runtime on what \<^verbatim>\<open>make\<close> allocates,
  which no existing slice exceeds, has no counterpart for them.
\<close>

datatype 'a outcome = Returned 'a | Panicked

definition normalizeRow :: "string list \<Rightarrow> int \<Rightarrow> string list outcome" where
  "normalizeRow row width =
     (if int (length row) = width then Returned row
      else if width < 0 then Panicked
      else
        let out = replicate (nat width) '''';
            copyLen = (if int (length row) > width then width else int (length row))
        in Returned (take (nat copyLen) row @ drop (nat copyLen) out))"

section \<open>Package csvio: files, readers and writers\<close>

text \<open>
  The program reaches the file system through \<^verbatim>\<open>os.Open\<close>, \<^verbatim>\<open>os.Create\<close>,
  \<^verbatim>\<open>csv.Reader.Read\<close>, \<^verbatim>\<open>csv.Writer.Write\<close> and \<^verbatim>\<open>csv.Writer.Flush\<close>. What these
  calls answer is the environment of a run, the record \<open>files\<close>:
  \<^item> \<open>openInput\<close>: the error of \<^verbatim>\<open>os.Open\<close>, or the input file, given as the results
    that the successive calls of \<^verbatim>\<open>r.Read()\<close> yield; once they are used up every call
    yields \<^verbatim>\<open>io.EOF\<close>. The reader has \<^verbatim>\<open>FieldsPerRecord = -1\<close>, so a record of any
    length is a result and not an error;
  \<^item> \<open>createOutput\<close>: the error of \<^verbatim>\<open>os.Create\<close>, if any;
  \<^item> \<open>writeError k\<close>: the error of the call of \<^verbatim>\<open>w.Write\<close> that follows \<open>k\<close>
    successful ones, if any (call 0 writes the header);
  \<^item> \<open>flushError\<close>: the error that \<^verbatim>\<open>w.Error()\<close> reports after the final
    \<^verbatim>\<open>w.Flush()\<close>, if any.
  The records that \<^verbatim>\<open>w.Write\<close> accepted, in order, are the output of a run.
\<close>

datatype ioerror = EOF | IOError string

datatype read_result = Rec "string list" | Err ioerror

text \<open>The wrapped errors, one constructor for each context string of \<^verbatim>\<open>fmt.Errorf\<close>.\<close>

datatype error =
    OpenCsv ioerror
  | OpenInputCsv ioerror
  | CreateOutputCsv ioerror
  | ReadHeadersFailed ioerror
  | WriteHeadersFailed ioerror
  | ReadRowFailed ioerror
  | WriteRowFailed ioerror
  | FlushOutputCsv ioerror

record files =
  openInput :: "ioerror + read_result list"
  createOutput :: "ioerror option"
  writeError :: "nat \<Rightarrow> ioerror option"
  flushError :: "ioerror option"

section \<open>Package csvio: reading the head of a file\<close>

text \<open>\<^verbatim>\<open>ReadHeaders\<close> and \<^verbatim>\<open>ReadHead\<close> take a path; the model takes what
  \<^verbatim>\<open>os.Open\<close> answers for that path, an error or the file as the reader's results.\<close>

definition ReadHeaders :: "ioerror + read_result list \<Rightarrow> string list \<times> error option" where
  "ReadHeaders f =
     (case f of
        Inl e \<Rightarrow> ([], Some (OpenCsv e))
      | Inr [] \<Rightarrow> ([], Some (ReadHeadersFailed EOF))
      | Inr (Err e # r) \<Rightarrow> ([], Some (ReadHeadersFailed e))
      | Inr (Rec headers # r) \<Rightarrow> (headers, None))"

text \<open>The loop \<^verbatim>\<open>for len(rows) < n\<close> of \<^verbatim>\<open>ReadHead\<close>, from the rows gathered so far
  and the results the reader has left.\<close>

fun readRows ::
  "string list \<Rightarrow> int \<Rightarrow> string list list \<Rightarrow> read_result list
     \<Rightarrow> (string list \<times> string list list \<times> error option) outcome" where
  "readRows headers n rows [] = Returned (headers, rows, None)"
| "readRows headers n rows (Err e # r) =
     (if int (length rows) < n
      then (if e = EOF then Returned (headers, rows, None)
            else Returned ([], [], Some (ReadRowFailed e)))
      else Returned (headers, rows, None))"
| "readRows headers n rows (Rec rec # r) =
     (if int (length rows) < n
      then (case normalizeRow rec (int (length headers)) of
              Panicked \<Rightarrow> Panicked
            | Returned row \<Rightarrow> readRows headers n (rows @ [row]) r)
      else Returned (headers, rows, None))"

text \<open>
  \<^verbatim>\<open>n\<close> comes from the caller (the command line, in the end), and
  \<^verbatim>\<open>make([][]string, 0, n)\<close> panics for a capacity that is negative or beyond the largest
  one the runtime accepts. That bound is a constant of the platform and not of this
  program: it is the parameter \<open>maxCap\<close>.
\<close>

definition ReadHead ::
  "nat \<Rightarrow> ioerror + read_result list \<Rightarrow> int
     \<Rightarrow> (string list \<times> string list list \<times> error option) outcome" where
  "ReadHead maxCap f n =
     (case f of
        Inl e \<Rightarrow> Returned ([], [], Some (OpenCsv e))
      | Inr [] \<Rightarrow> Returned ([], [], Some (ReadHeadersFailed EOF))
      | Inr (Err e # r) \<Rightarrow> Returned ([], [], Some (ReadHeadersFailed e))
      | Inr (Rec headers # r) \<Rightarrow>
          (if n < 0 \<or> int maxCap < n then Panicked else readRows headers n [] r))"

section \<open>Package csvio: the streaming transformation\<close>

text \<open>The counters are Go \<^verbatim>\<open>int\<close>s. A run counts one step for each cell, so it cannot
  reach \<open>2 ^ 63\<close>, and the counters are modelled as unbounded integers.\<close>

record NullifyStats =
  RowsRead :: int
  CellsChecked :: int
  CellsNullified :: int

definition noStats :: NullifyStats where
  "noStats = \<lparr>RowsRead = 0, CellsChecked = 0, CellsNullified = 0\<rparr>"

text \<open>The inner loop \<^verbatim>\<open>for i := range rec\<close>: the cells from left to right, the counters
  passed along.\<close>

fun nullifyCells ::
  "(string \<Rightarrow> string) \<Rightarrow> Policy \<Rightarrow> string list \<Rightarrow> NullifyStats
     \<Rightarrow> string list \<times> NullifyStats" where
  "nullifyCells up policy [] stats = ([], stats)"
| "nullifyCells up policy (c # cs) stats =
     (let stats1 = stats\<lparr>CellsChecked := CellsChecked stats + 1\<rparr> in
      if IsNull up policy c then
        let stats2 = (if c \<noteq> '''' then stats1\<lparr>CellsNullified := CellsNullified stats1 + 1\<rparr>
                      else stats1);
            (cs', stats3) = nullifyCells up policy cs stats2
        in ('''' # cs', stats3)
      else
        let (cs', stats3) = nullifyCells up policy cs stats1
        in (c # cs', stats3))"

text \<open>What follows the loop: \<^verbatim>\<open>w.Flush()\<close> and the check of \<^verbatim>\<open>w.Error()\<close>.\<close>

definition flushOutput ::
  "files \<Rightarrow> NullifyStats \<Rightarrow> string list list
     \<Rightarrow> (NullifyStats \<times> error option) outcome \<times> string list list" where
  "flushOutput fs stats written =
     (case flushError fs of
        Some e \<Rightarrow> (Returned (stats, Some (FlushOutputCsv e)), written)
      | None \<Rightarrow> (Returned (stats, None), written))"

text \<open>The outer loop \<^verbatim>\<open>for { rec, err := r.Read() ... }\<close>, from the counters, the records
  written so far and the results the reader has left.\<close>

fun nullifyRows ::
  "(string \<Rightarrow> string) \<Rightarrow> Policy \<Rightarrow> files \<Rightarrow> string list \<Rightarrow> NullifyStats
     \<Rightarrow> string list list \<Rightarrow> read_result list
     \<Rightarrow> (NullifyStats \<times> error option) outcome \<times> string list list" where
  "nullifyRows up policy fs headers stats written [] = flushOutput fs stats written"
| "nullifyRows up policy fs headers stats written (Err e # r) =
     (if e = EOF then flushOutput fs stats written
      else (Returned (stats, Some (ReadRowFailed e)), written))"
| "nullifyRows up policy fs headers stats written (Rec rec # r) =
     (let stats1 = stats\<lparr>RowsRead := RowsRead stats + 1\<rparr> in
      case normalizeRow rec (int (length headers)) of
        Panicked \<Rightarrow> (Panicked, written)
      | Returned rec1 \<Rightarrow>
          let (rec2, stats2) = nullifyCells up policy rec1 stats1 in
          (case writeError fs (length written) of
             Some e \<Rightarrow> (Returned (stats2, Some (WriteRowFailed e)), written)
           | None \<Rightarrow> nullifyRows up policy fs headers stats2 (written @ [rec2]) r))"

definition NullifyFile ::
  "(string \<Rightarrow> string) \<Rightarrow> files \<Rightarrow> Policy
     \<Rightarrow> (NullifyStats \<times> error option) outcome \<times> string list list" where
  "NullifyFile up fs policy =
     (case openInput fs of
        Inl e \<Rightarrow> (Returned (noStats, Some (OpenInputCsv e)), [])
      | Inr r \<Rightarrow>
          (case createOutput fs of
             Some e \<Rightarrow> (Returned (noStats, Some (CreateOutputCsv e)), [])
           | None \<Rightarrow>
               (case r of
                  [] \<Rightarrow> (Returned (noStats, Some (ReadHeadersFailed EOF)), [])
                | Err e # r' \<Rightarrow> (Returned (noStats, Some (ReadHeadersFailed e)), [])
                | Rec headers # r' \<Rightarrow>
                    (case writeError fs 0 of
                       Some e \<Rightarrow> (Returned (noStats, Some (WriteHeadersFailed e)), [])
                     | None \<Rightarrow> nullifyRows up policy fs headers noStats [headers] r'))))"

section \<open>Notions used in the proofs\<close>

text \<open>The three definitions below name what one pass of the outer loop computes: the
  record at the header's width, the cells replaced by the empty string, and how many of
  them were not empty before. \<open>counted\<close> is the invariant of the outer loop, and
  \<open>settled\<close> says that no cell of a record would change.\<close>

definition paddedRow :: "string list \<Rightarrow> string list \<Rightarrow> string list" where
  "paddedRow headers rec =
     take (length headers) rec @ replicate (length headers - length rec) ''''"

definition blanked :: "(string \<Rightarrow> string) \<Rightarrow> Policy \<Rightarrow> string list \<Rightarrow> string list" where
  "blanked up p row = map (\<lambda>c. if IsNull up p c then '''' else c) row"

definition changedCells :: "(string \<Rightarrow> string) \<Rightarrow> Policy \<Rightarrow> string list \<Rightarrow> nat" where
  "changedCells up p row = length (filter (\<lambda>c. IsNull up p c \<and> c \<noteq> '''') row)"

definition counted :: "int \<Rightarrow> NullifyStats \<Rightarrow> bool" where
  "counted w st \<longleftrightarrow>
     0 \<le> CellsNullified st \<and> CellsNullified st \<le> CellsChecked st \<and>
     CellsChecked st = RowsRead st * w"

definition settled :: "(string \<Rightarrow> string) \<Rightarrow> Policy \<Rightarrow> string list \<Rightarrow> bool" where
  "settled up p row \<longleftrightarrow> list_all (\<lambda>c. IsNull up p c \<longrightarrow> c = '''') row"

section \<open>Width normalisation\<close>

lemma normalizeRow_nonneg:
  "0 \<le> width \<Longrightarrow>
   normalizeRow row width =
     Returned (take (nat width) row @ replicate (nat width - length row) '''')"
  by (auto simp: normalizeRow_def Let_def nat_less_iff)

lemma normalizeRow_headers:
  "normalizeRow rec (int (length headers)) = Returned (paddedRow headers rec)"
  using normalizeRow_nonneg [of "int (length headers)" rec] by (simp add: paddedRow_def)

lemma length_paddedRow: "length (paddedRow headers rec) = length headers"
  by (auto simp: paddedRow_def)

text \<open>
  C2. A width is the length that the records of a file are brought to: both callers pass
  \<^verbatim>\<open>len(headers)\<close>. For every record and every such width \<^verbatim>\<open>normalizeRow\<close> returns a
  record of exactly \<open>width\<close> cells: the first \<open>width\<close> cells of the record, unchanged
  and in order, when the record has at least \<open>width\<close> cells, and otherwise the whole
  record, unchanged and in order, followed by empty strings up to \<open>width\<close>.
\<close>

theorem normalizeRow_shape:
  "\<exists>out. normalizeRow row (int (length headers)) = Returned out \<and>
      length out = length headers \<and>
      (length headers \<le> length row \<longrightarrow> out = take (length headers) row) \<and>
      (length row < length headers \<longrightarrow>
         out = row @ replicate (length headers - length row) '''')"
proof -
  have "normalizeRow row (int (length headers)) =
      Returned (take (length headers) row @ replicate (length headers - length row) '''')"
    using normalizeRow_nonneg [of "int (length headers)" row] by simp
  moreover
  have "length (take (length headers) row @ replicate (length headers - length row) '''')
      = length headers"
    by auto
  ultimately show ?thesis
    by auto
qed

theorem normalizeRow_shape_witness:
  "normalizeRow [''x'', ''y''] (int (length [''a'', ''b'', ''c''])) =
     Returned [''x'', ''y'', ''''] \<and>
   normalizeRow [''x'', ''y'', ''z''] (int (length [''a'', ''b''])) = Returned [''x'', ''y''] \<and>
   normalizeRow [''x'', ''y''] (int (length [''a'', ''b''])) = Returned [''x'', ''y'']"
  using normalizeRow_shape [of "[''x'', ''y'']" "[''a'', ''b'', ''c'']"]
    normalizeRow_shape [of "[''x'', ''y'', ''z'']" "[''a'', ''b'']"]
    normalizeRow_shape [of "[''x'', ''y'']" "[''a'', ''b'']"]
  by auto

section \<open>The policy\<close>

lemma ToUpper_empty: "ToUpper up '''' = ''''"
  by (simp add: ToUpper_def)

text \<open>No white-space rune is the start of another one, so a string that begins with
  one of them loses exactly that one, and a string made of white space only trims to
  the empty string.\<close>

lemma spaceRunes_nonempty: "w \<in> set spaceRunes \<Longrightarrow> w \<noteq> []"
  by (auto simp: spaceRunes_def)

lemma spaceRunes_prefix_free:
  "v \<in> set spaceRunes \<Longrightarrow> w \<in> set spaceRunes \<Longrightarrow> prefix v w \<Longrightarrow> v = w"
proof -
  have "list_all (\<lambda>v. list_all (\<lambda>w. prefix v w \<longrightarrow> v = w) spaceRunes) spaceRunes"
    by code_simp
  then show "v \<in> set spaceRunes \<Longrightarrow> w \<in> set spaceRunes \<Longrightarrow> prefix v w \<Longrightarrow> v = w"
    by (simp add: list_all_iff)
qed

lemma leadingSpace_rune:
  assumes "w \<in> set spaceRunes"
  shows "leadingSpace (w @ t) = length w"
proof -
  have "prefix w (w @ t)"
    by simp
  with assms have "find (\<lambda>v. prefix v (w @ t)) spaceRunes \<noteq> None"
    unfolding find_None_iff by blast
  then obtain v where f: "find (\<lambda>v. prefix v (w @ t)) spaceRunes = Some v"
    by blast
  then have v: "v \<in> set spaceRunes" and p: "prefix v (w @ t)"
    by (auto simp: find_Some_iff)
  have "prefix w (w @ t)"
    by simp
  with p have "prefix v w \<or> prefix w v"
    by (rule prefix_same_cases)
  with v assms have "v = w"
    by (auto dest: spaceRunes_prefix_free)
  with f show ?thesis
    by (simp add: leadingSpace_def)
qed

lemma TrimLeft_rune: "w \<in> set spaceRunes \<Longrightarrow> TrimLeft (w @ t) = TrimLeft t"
  using spaceRunes_nonempty [of w]
  by (subst TrimLeft.simps) (simp add: leadingSpace_rune)

lemma TrimSpace_white:
  assumes "set ws \<subseteq> set spaceRunes"
  shows "TrimSpace (concat ws) = ''''"
proof -
  from assms have "TrimLeft (concat ws) = TrimLeft []"
    by (induction ws) (auto simp: TrimLeft_rune)
  moreover have "TrimLeft [] = []"
    by code_simp
  moreover have "TrimRight [] = []"
    by code_simp
  ultimately show ?thesis
    by (simp add: TrimSpace_def)
qed

text \<open>
  C3. \<open>IsNull\<close> holds of a string exactly when, with \<open>trimmed\<close> the string without its
  leading and trailing white space and \<open>upper\<close> the upper case of \<open>trimmed\<close>, blanks are
  treated and \<open>trimmed\<close> is empty, or NA is treated and \<open>upper\<close> is \<open>NA\<close> or \<open>N/A\<close>, or the
  NULL literal is treated and \<open>upper\<close> is \<open>NULL\<close>. A string that trims to the empty
  string, as every string made of white-space runes only does, is NULL exactly when
  blanks are treated, whatever the two other switches say.
\<close>

theorem IsNull_rules:
  "(IsNull up p s \<longleftrightarrow>
      (TreatBlanks p \<and> TrimSpace s = '''') \<or>
      (TreatNA p \<and>
         (ToUpper up (TrimSpace s) = ''NA'' \<or> ToUpper up (TrimSpace s) = ''N/A'')) \<or>
      (TreatNULLLiteral p \<and> ToUpper up (TrimSpace s) = ''NULL'')) \<and>
   (TrimSpace s = '''' \<longrightarrow> (IsNull up p s \<longleftrightarrow> TreatBlanks p)) \<and>
   (set ws \<subseteq> set spaceRunes \<longrightarrow> (IsNull up p (concat ws) \<longleftrightarrow> TreatBlanks p))"
proof -
  have "set ws \<subseteq> set spaceRunes \<longrightarrow> (IsNull up p (concat ws) \<longleftrightarrow> TreatBlanks p)"
    by (auto simp: IsNull_def Let_def ToUpper_empty TrimSpace_white)
  then show ?thesis
    by (auto simp: IsNull_def Let_def ToUpper_empty)
qed

theorem IsNull_rules_witness:
  "set [[CHR 0x20], [CHR 0x09], [CHR 0xC2, CHR 0xA0]] \<subseteq> set spaceRunes \<and>
   TrimSpace [CHR 0x20, CHR 0x09, CHR 0xC2, CHR 0xA0] = '''' \<and>
   IsNull id \<lparr>TreatBlanks = True, TreatNA = False, TreatNULLLiteral = False\<rparr>
     [CHR 0x20, CHR 0x09, CHR 0xC2, CHR 0xA0] \<and>
   \<not> IsNull id \<lparr>TreatBlanks = False, TreatNA = True, TreatNULLLiteral = True\<rparr>
     [CHR 0x20, CHR 0x09, CHR 0xC2, CHR 0xA0]"
proof -
  let ?s = "[CHR 0x20, CHR 0x09, CHR 0xC2, CHR 0xA0]"
  let ?ws = "[[CHR 0x20], [CHR 0x09], [CHR 0xC2, CHR 0xA0]]"
  have w: "set ?ws \<subseteq> set spaceRunes"
    by (simp add: spaceRunes_def)
  have t: "TrimSpace ?s = ''''"
    by code_simp
  show ?thesis
    using w t
      IsNull_rules [of id "\<lparr>TreatBlanks = True, TreatNA = False, TreatNULLLiteral = False\<rparr>"
        ?s ?ws]
      IsNull_rules [of id "\<lparr>TreatBlanks = False, TreatNA = True, TreatNULLLiteral = True\<rparr>"
        ?s ?ws]
    by (simp add: ToUpper_empty)
qed

text \<open>
  C5. The classification is monotone in the switches: when every switch that is on in
  \<open>p\<close> is on in \<open>q\<close>, every string that is NULL under \<open>p\<close> is NULL under \<open>q\<close>.
\<close>

theorem IsNull_monotone:
  assumes "TreatBlanks p \<longrightarrow> TreatBlanks q"
    and "TreatNA p \<longrightarrow> TreatNA q"
    and "TreatNULLLiteral p \<longrightarrow> TreatNULLLiteral q"
    and "IsNull up p s"
  shows "IsNull up q s"
  using assms by (auto simp: IsNull_def Let_def split: if_splits)

theorem IsNull_monotone_witness:
  "IsNull id \<lparr>TreatBlanks = False, TreatNA = True, TreatNULLLiteral = False\<rparr> '' n/a'' \<and>
   IsNull id \<lparr>TreatBlanks = True, TreatNA = True, TreatNULLLiteral = False\<rparr> '' n/a''"
proof -
  have a: "IsNull id \<lparr>TreatBlanks = False, TreatNA = True, TreatNULLLiteral = False\<rparr> '' n/a''"
    by code_simp
  from IsNull_monotone [of "\<lparr>TreatBlanks = False, TreatNA = True, TreatNULLLiteral = False\<rparr>"
      "\<lparr>TreatBlanks = True, TreatNA = True, TreatNULLLiteral = False\<rparr>" id "'' n/a''"] a
  show ?thesis
    by simp
qed

section \<open>Reading the head of a file\<close>

text \<open>
  C9. For every input file that opens and whose first record is read, \<open>ReadHead\<close> with
  \<open>n = 0\<close> returns that record as the headers, no rows, and no error, whatever the
  bound of the runtime on a capacity is.
\<close>

theorem ReadHead_zero:
  "ReadHead maxCap (Inr (Rec headers # r)) 0 = Returned (headers, [], None)"
proof (cases r)
  case Nil
  then show ?thesis by (simp add: ReadHead_def)
next
  case (Cons x r')
  then show ?thesis by (cases x) (simp_all add: ReadHead_def)
qed

theorem ReadHead_zero_witness:
  "ReadHead 1000000 (Inr [Rec [''name'', ''email''], Rec [''ann'', ''ann@example.org'']]) 0 =
     Returned ([''name'', ''email''], [], None)"
  using ReadHead_zero [of 1000000 "[''name'', ''email'']"
      "[Rec [''ann'', ''ann@example.org'']]"]
  by simp

section \<open>The streaming transformation\<close>

lemma nullifyCells_eq:
  "nullifyCells up p cs st =
     (blanked up p cs,
      st\<lparr>CellsChecked := CellsChecked st + int (length cs),
         CellsNullified := CellsNullified st + int (changedCells up p cs)\<rparr>)"
  unfolding blanked_def changedCells_def
  by (induction cs arbitrary: st) (auto simp: Let_def)

lemma changedCells_le: "changedCells up p row \<le> length row"
  by (simp add: changedCells_def)

text \<open>One pass of the outer loop on a record that was read.\<close>

lemma nullifyRows_Rec:
  "nullifyRows up p fs headers st written (Rec rec # r) =
     (let row = paddedRow headers rec;
          st2 = st\<lparr>RowsRead := RowsRead st + 1,
                   CellsChecked := CellsChecked st + int (length headers),
                   CellsNullified := CellsNullified st + int (changedCells up p row)\<rparr>
      in case writeError fs (length written) of
           Some e \<Rightarrow> (Returned (st2, Some (WriteRowFailed e)), written)
         | None \<Rightarrow> nullifyRows up p fs headers st2 (written @ [blanked up p row]) r)"
  by (simp add: normalizeRow_headers nullifyCells_eq length_paddedRow Let_def
      split: option.split)

declare nullifyRows.simps(3) [simp del]

lemma nullifyRows_counted:
  "counted (int (length headers)) st \<Longrightarrow>
   \<exists>st' err out. nullifyRows up p fs headers st written r = (Returned (st', err), out) \<and>
      counted (int (length headers)) st'"
proof (induction r arbitrary: st written)
  case Nil
  then show ?case by (auto simp: flushOutput_def split: option.splits)
next
  case (Cons x r)
  show ?case
  proof (cases x)
    case (Err e)
    with Cons.prems show ?thesis by (auto simp: flushOutput_def split: option.splits)
  next
    case (Rec rec)
    let ?row = "paddedRow headers rec"
    let ?st2 = "st\<lparr>RowsRead := RowsRead st + 1,
                   CellsChecked := CellsChecked st + int (length headers),
                   CellsNullified := CellsNullified st + int (changedCells up p ?row)\<rparr>"
    have "int (changedCells up p ?row) \<le> int (length headers)"
      using changedCells_le [of up p ?row] by (simp add: length_paddedRow)
    with Cons.prems have c2: "counted (int (length headers)) ?st2"
      by (simp add: counted_def algebra_simps)
    show ?thesis
    proof (cases "writeError fs (length written)")
      case None
      with Rec Cons.IH [OF c2, of "written @ [blanked up p ?row]"] show ?thesis
        by (simp add: nullifyRows_Rec Let_def)
    next
      case (Some e)
      with Rec c2 show ?thesis
        by (simp add: nullifyRows_Rec Let_def)
    qed
  qed
qed

text \<open>
  C1. Every run of \<open>NullifyFile\<close> returns, and the statistics it returns have
  \<open>CellsNullified \<le> CellsChecked\<close> and \<open>CellsChecked = RowsRead * width\<close>, with \<open>width\<close>
  the length of the header record. This holds of a run that succeeds and of the partial
  statistics returned with an error of reading or writing a row; a run that fails before
  it has a header returns the statistics that are all zero.
\<close>

theorem counting_invariant:
  "\<exists>stats err out. NullifyFile up fs policy = (Returned (stats, err), out) \<and>
      CellsNullified stats \<le> CellsChecked stats \<and>
      (\<forall>headers r. openInput fs = Inr (Rec headers # r) \<longrightarrow>
          CellsChecked stats = RowsRead stats * int (length headers)) \<and>
      ((\<forall>headers r. openInput fs \<noteq> Inr (Rec headers # r)) \<longrightarrow> stats = noStats)"
proof (cases "\<exists>headers r. openInput fs = Inr (Rec headers # r) \<and> createOutput fs = None
    \<and> writeError fs 0 = None")
  case True
  then obtain headers r where o: "openInput fs = Inr (Rec headers # r)"
    and c: "createOutput fs = None" and w: "writeError fs 0 = None"
    by blast
  have "counted (int (length headers)) noStats"
    by (simp add: counted_def noStats_def)
  from nullifyRows_counted [OF this, of up policy fs "[headers]" r]
  obtain st' err out
    where "nullifyRows up policy fs headers noStats [headers] r = (Returned (st', err), out)"
      and "counted (int (length headers)) st'"
    by blast
  with o c w show ?thesis
    by (auto simp: NullifyFile_def counted_def)
next
  case False
  then have "\<exists>err. NullifyFile up fs policy = (Returned (noStats, err), [])"
    by (auto simp: NullifyFile_def
        split: sum.splits option.splits list.splits read_result.splits)
  then show ?thesis
    by (auto simp: noStats_def)
qed

theorem counting_invariant_witness:
  "NullifyFile id
     \<lparr>openInput = Inr [Rec [''a'', ''b''], Rec [''NA'', '' '', ''x''], Rec [''1'']],
      createOutput = None,
      writeError = (\<lambda>k. if k = 2 then Some (IOError ''disk full'') else None),
      flushError = None\<rparr>
     \<lparr>TreatBlanks = True, TreatNA = True, TreatNULLLiteral = False\<rparr> =
   (Returned (\<lparr>RowsRead = 2, CellsChecked = 4, CellsNullified = 2\<rparr>,
              Some (WriteRowFailed (IOError ''disk full''))),
    [[''a'', ''b''], ['''', '''']]) \<and>
   (2::int) \<le> 4 \<and> (4::int) = 2 * int (length [''a'', ''b''])"
proof -
  let ?fs = "\<lparr>openInput = Inr [Rec [''a'', ''b''], Rec [''NA'', '' '', ''x''], Rec [''1'']],
      createOutput = None,
      writeError = (\<lambda>k. if k = 2 then Some (IOError ''disk full'') else None),
      flushError = None\<rparr>"
  let ?p = "\<lparr>TreatBlanks = True, TreatNA = True, TreatNULLLiteral = False\<rparr>"
  have run: "NullifyFile id ?fs ?p =
      (Returned (\<lparr>RowsRead = 2, CellsChecked = 4, CellsNullified = 2\<rparr>,
                 Some (WriteRowFailed (IOError ''disk full''))),
       [[''a'', ''b''], ['''', '''']])"
    by code_simp
  from counting_invariant [of id ?fs ?p] run show ?thesis
    by auto
qed

text \<open>The exits of \<open>NullifyFile\<close> before the loop return no statistics and write
  nothing; past them the run is the loop, started with the header written.\<close>

lemma NullifyFile_cases:
  "(\<exists>err. NullifyFile up fs policy = (Returned (noStats, Some err), [])) \<or>
   (\<exists>headers r. openInput fs = Inr (Rec headers # r) \<and> createOutput fs = None \<and>
      writeError fs 0 = None \<and>
      NullifyFile up fs policy = nullifyRows up policy fs headers noStats [headers] r)"
  by (auto simp: NullifyFile_def
      split: sum.splits option.splits list.splits read_result.splits)

lemma nullifyRows_returns:
  "\<exists>st' err out. nullifyRows up p fs headers noStats written r = (Returned (st', err), out)"
proof -
  have "counted (int (length headers)) noStats"
    by (simp add: counted_def noStats_def)
  from nullifyRows_counted [OF this, of up p fs written r] show ?thesis
    by blast
qed

text \<open>What the loop writes: the records written before stay, and the \<open>i\<close>-th record
  it adds comes from the \<open>i\<close>-th result of the reader, which is a record.\<close>

lemma nullifyRows_output:
  "nullifyRows up p fs headers st written r = (res, out) \<Longrightarrow>
   \<exists>new. out = written @ new \<and>
     list_all2 (\<lambda>x row. \<exists>rec. x = Rec rec \<and> row = blanked up p (paddedRow headers rec))
       (take (length new) r) new"
proof (induction r arbitrary: st written)
  case Nil
  then show ?case by (auto simp: flushOutput_def split: option.splits)
next
  case (Cons x r)
  show ?case
  proof (cases x)
    case (Err e)
    with Cons.prems show ?thesis
      by (auto simp: flushOutput_def split: option.splits if_splits)
  next
    case (Rec rec)
    show ?thesis
    proof (cases "writeError fs (length written)")
      case (Some e)
      with Rec Cons.prems show ?thesis
        by (auto simp: nullifyRows_Rec Let_def)
    next
      case None
      with Rec Cons.prems obtain st2 where
        "nullifyRows up p fs headers st2 (written @ [blanked up p (paddedRow headers rec)]) r
           = (res, out)"
        by (auto simp: nullifyRows_Rec Let_def)
      from Cons.IH [OF this] obtain new where
        o: "out = (written @ [blanked up p (paddedRow headers rec)]) @ new" and
        l: "list_all2
             (\<lambda>x row. \<exists>rec. x = Rec rec \<and> row = blanked up p (paddedRow headers rec))
             (take (length new) r) new"
        by blast
      let ?new = "blanked up p (paddedRow headers rec) # new"
      from o have "out = written @ ?new"
        by simp
      moreover from l Rec have
        "list_all2
           (\<lambda>x row. \<exists>rec. x = Rec rec \<and> row = blanked up p (paddedRow headers rec))
           (take (length ?new) (x # r)) ?new"
        by simp
      ultimately show ?thesis
        by blast
    qed
  qed
qed

text \<open>As long as every write succeeds, the loop passes over a run of records and
  goes on with what is left, the counters moved by the rows and cells of that run.\<close>

lemma nullifyRows_append:
  "\<forall>k. length written \<le> k \<and> k < length written + length rows \<longrightarrow> writeError fs k = None \<Longrightarrow>
   nullifyRows up p fs headers st written (map Rec rows @ rest) =
   nullifyRows up p fs headers
     (st\<lparr>RowsRead := RowsRead st + int (length rows),
        CellsChecked := CellsChecked st + int (length rows) * int (length headers),
        CellsNullified := CellsNullified st +
          int (sum_list (map (\<lambda>rec. changedCells up p (paddedRow headers rec)) rows))\<rparr>)
     (written @ map (\<lambda>rec. blanked up p (paddedRow headers rec)) rows) rest"
proof (induction rows arbitrary: st written)
  case Nil
  then show ?case by simp
next
  case (Cons rec rows)
  from Cons.prems have w: "writeError fs (length written) = None"
    by simp
  from Cons.prems have
    "\<forall>k. length (written @ [blanked up p (paddedRow headers rec)]) \<le> k \<and>
         k < length (written @ [blanked up p (paddedRow headers rec)]) + length rows
         \<longrightarrow> writeError fs k = None"
    by simp
  from Cons.IH [OF this] w show ?case
    by (simp add: nullifyRows_Rec Let_def algebra_simps)
qed

text \<open>Records in which no cell would change leave \<open>CellsNullified\<close> as it is.\<close>

lemma settled_blanked: "settled up p (blanked up p row)"
  by (induction row) (auto simp: settled_def blanked_def)

lemma settled_paddedRow: "settled up p rec \<Longrightarrow> settled up p (paddedRow headers rec)"
  by (auto simp: settled_def paddedRow_def list_all_iff dest: in_set_takeD)

lemma changedCells_settled: "settled up p row \<Longrightarrow> changedCells up p row = 0"
  by (auto simp: settled_def changedCells_def list_all_iff filter_empty_conv)

lemma nullifyRows_settled:
  "\<forall>rec. Rec rec \<in> set r \<longrightarrow> settled up p rec \<Longrightarrow>
   nullifyRows up p fs headers st written r = (Returned (st', e), out) \<Longrightarrow>
   CellsNullified st' = CellsNullified st"
proof (induction r arbitrary: st written)
  case Nil
  then show ?case by (auto simp: flushOutput_def split: option.splits)
next
  case (Cons x r)
  show ?case
  proof (cases x)
    case (Err e)
    with Cons.prems show ?thesis
      by (auto simp: flushOutput_def split: option.splits if_splits)
  next
    case (Rec rec)
    with Cons.prems have "settled up p rec"
      by simp
    then have z: "changedCells up p (paddedRow headers rec) = 0"
      by (simp add: settled_paddedRow changedCells_settled)
    show ?thesis
    proof (cases "writeError fs (length written)")
      case (Some e)
      with Rec Cons.prems z show ?thesis
        by (auto simp: nullifyRows_Rec Let_def)
    next
      case None
      let ?st2 = "st\<lparr>RowsRead := RowsRead st + 1,
                   CellsChecked := CellsChecked st + int (length headers),
                   CellsNullified := CellsNullified st\<rparr>"
      from None Rec Cons.prems z have
        "nullifyRows up p fs headers ?st2 (written @ [blanked up p (paddedRow headers rec)]) r
           = (Returned (st', e), out)"
        by (simp add: nullifyRows_Rec Let_def)
      from Cons.IH [OF _ this] Cons.prems(1) show ?thesis
        by simp
    qed
  qed
qed

lemma nullifyRows_rows_settled:
  assumes "nullifyRows up p fs headers st [headers] r = (res, out)"
  shows "\<forall>row \<in> set (tl out). settled up p row"
proof -
  from nullifyRows_output [OF assms] obtain new where
    o: "out = [headers] @ new" and
    l: "list_all2
         (\<lambda>x row. \<exists>rec. x = Rec rec \<and> row = blanked up p (paddedRow headers rec))
         (take (length new) r) new"
    by blast
  have "\<forall>row \<in> set new. settled up p row"
  proof
    fix row
    assume "row \<in> set new"
    then obtain i where i: "i < length new" and r: "row = new ! i"
      by (auto simp: in_set_conv_nth)
    from list_all2_nthD2 [OF l i] obtain rec
      where "new ! i = blanked up p (paddedRow headers rec)"
      by blast
    with r show "settled up p row"
      by (simp add: settled_blanked)
  qed
  with o show ?thesis
    by simp
qed

text \<open>A second run finds nothing to change, also on an input that has lost some of
  the records the first run wrote (the reader of \<^verbatim>\<open>encoding/csv\<close> skips an empty line,
  which is what a record of one empty cell is written as).\<close>

lemma nullify_again:
  assumes first: "NullifyFile up fs policy = (Returned (stats, None), out)"
    and sub: "set (tl reread) \<subseteq> set (tl out)"
    and second: "openInput fs2 = Inr (map Rec reread)"
  shows "\<exists>stats2 err2 out2. NullifyFile up fs2 policy = (Returned (stats2, err2), out2) \<and>
           CellsNullified stats2 = 0"
proof -
  from NullifyFile_cases [of up fs policy] first obtain headers r where
    "nullifyRows up policy fs headers noStats [headers] r = (Returned (stats, None), out)"
    by auto
  from nullifyRows_rows_settled [OF this] sub
  have s: "\<forall>row \<in> set (tl reread). settled up policy row"
    by blast
  from NullifyFile_cases [of up fs2 policy] show ?thesis
  proof
    assume "\<exists>err. NullifyFile up fs2 policy = (Returned (noStats, Some err), [])"
    then show ?thesis
      by (auto simp: noStats_def)
  next
    assume "\<exists>headers r. openInput fs2 = Inr (Rec headers # r) \<and> createOutput fs2 = None \<and>
      writeError fs2 0 = None \<and>
      NullifyFile up fs2 policy = nullifyRows up policy fs2 headers noStats [headers] r"
    then obtain h2 r2 where o2: "openInput fs2 = Inr (Rec h2 # r2)"
      and n2: "NullifyFile up fs2 policy = nullifyRows up policy fs2 h2 noStats [h2] r2"
      by blast
    from o2 second have "map Rec reread = Rec h2 # r2"
      by simp
    then have "r2 = map Rec (tl reread)"
      by (cases reread) auto
    with s have s2: "\<forall>rec. Rec rec \<in> set r2 \<longrightarrow> settled up policy rec"
      by auto
    from nullifyRows_returns [of up policy fs2 h2 "[h2]" r2] obtain st' err' out' where
      r: "nullifyRows up policy fs2 h2 noStats [h2] r2 = (Returned (st', err'), out')"
      by blast
    from nullifyRows_settled [OF s2 r] have "CellsNullified st' = 0"
      by (simp add: noStats_def)
    with n2 r show ?thesis
      by simp
  qed
qed

lemma IsNull_all_off:
  "\<not> TreatBlanks p \<Longrightarrow> \<not> TreatNA p \<Longrightarrow> \<not> TreatNULLLiteral p \<Longrightarrow> \<not> IsNull up p s"
  by (simp add: IsNull_def Let_def)

text \<open>
  C7. Header fidelity: for every policy and every input whose header is read and written,
  the first record of the output is the header record as it was read, and it is written
  before any data row is processed: the run is the loop over the results that follow the
  header, started with counters at zero and the header as the only record written.
\<close>

theorem header_fidelity:
  assumes "openInput fs = Inr (Rec headers # r)"
    and "createOutput fs = None"
    and "writeError fs 0 = None"
  shows "NullifyFile up fs policy = nullifyRows up policy fs headers noStats [headers] r \<and>
         (\<exists>res rows. NullifyFile up fs policy = (res, headers # rows))"
proof -
  from assms
  have e: "NullifyFile up fs policy = nullifyRows up policy fs headers noStats [headers] r"
    by (simp add: NullifyFile_def)
  obtain res out where ro: "nullifyRows up policy fs headers noStats [headers] r = (res, out)"
    by (cases "nullifyRows up policy fs headers noStats [headers] r")
  from nullifyRows_output [OF ro] obtain new where "out = [headers] @ new"
    by blast
  with e ro show ?thesis
    by simp
qed

theorem header_fidelity_witness:
  "NullifyFile id
     \<lparr>openInput = Inr [Rec ['' NA '', ''null''], Rec [''NA'', ''NULL'']],
      createOutput = None, writeError = (\<lambda>k. None), flushError = None\<rparr>
     \<lparr>TreatBlanks = True, TreatNA = True, TreatNULLLiteral = True\<rparr> =
   (Returned (\<lparr>RowsRead = 1, CellsChecked = 2, CellsNullified = 2\<rparr>, None),
    [['' NA '', ''null''], ['''', '''']])"
proof -
  let ?fs = "\<lparr>openInput = Inr [Rec ['' NA '', ''null''], Rec [''NA'', ''NULL'']],
      createOutput = None, writeError = (\<lambda>k. None), flushError = None\<rparr>"
  let ?p = "\<lparr>TreatBlanks = True, TreatNA = True, TreatNULLLiteral = True\<rparr>"
  have o: "openInput ?fs = Inr (Rec ['' NA '', ''null''] # [Rec [''NA'', ''NULL'']])"
    by simp
  have c: "createOutput ?fs = None"
    by simp
  have w: "writeError ?fs 0 = None"
    by simp
  have run: "nullifyRows id ?p ?fs ['' NA '', ''null''] noStats [['' NA '', ''null'']]
      [Rec [''NA'', ''NULL'']] =
    (Returned (\<lparr>RowsRead = 1, CellsChecked = 2, CellsNullified = 2\<rparr>, None),
     [['' NA '', ''null''], ['''', '''']])"
    by code_simp
  from header_fidelity [OF o c w, of id ?p] run show ?thesis
    by simp
qed

text \<open>
  C8. A read error in the middle of the stream, one that is not the end of the input,
  ends the loop at once. With the writes before it successful, \<open>NullifyFile\<close> returns an
  error of the read-row phase together with the statistics and the output of the rows
  before the failing read: the same statistics and the same output as a complete run on
  the input cut off before that read. \<open>RowsRead\<close> is the number of those rows, and
  whatever follows the error in the input plays no part.
\<close>

theorem read_error_partial_stats:
  assumes "openInput fs = Inr (Rec headers # map Rec rows @ Err (IOError msg) # rest)"
    and "createOutput fs = None"
    and "\<forall>k \<le> length rows. writeError fs k = None"
  shows "\<exists>stats out.
           NullifyFile up fs policy =
             (Returned (stats, Some (ReadRowFailed (IOError msg))), out) \<and>
           NullifyFile up
               (fs\<lparr>openInput := Inr (Rec headers # map Rec rows), flushError := None\<rparr>)
               policy =
             (Returned (stats, None), out) \<and>
           RowsRead stats = int (length rows) \<and> length out = Suc (length rows)"
proof -
  let ?fs' = "fs\<lparr>openInput := Inr (Rec headers # map Rec rows), flushError := None\<rparr>"
  from assms(3) have w0: "writeError fs 0 = None"
    by simp
  from assms(3)
  have w: "\<forall>k. length [headers] \<le> k \<and> k < length [headers] + length rows
      \<longrightarrow> writeError fs k = None"
    by auto
  then have w': "\<forall>k. length [headers] \<le> k \<and> k < length [headers] + length rows
      \<longrightarrow> writeError ?fs' k = None"
    by simp
  from nullifyRows_append [OF w, of up policy headers noStats "Err (IOError msg) # rest"]
    nullifyRows_append [OF w', of up policy headers noStats "[]"] assms(1,2) w0
  show ?thesis
    by (simp add: NullifyFile_def flushOutput_def noStats_def)
qed

theorem read_error_partial_stats_witness:
  "NullifyFile id
     \<lparr>openInput = Inr [Rec [''a'', ''b''], Rec [''NA'', ''x''],
                        Err (IOError ''bare quote''), Rec [''NA'', ''NA'']],
      createOutput = None, writeError = (\<lambda>k. None), flushError = None\<rparr>
     \<lparr>TreatBlanks = True, TreatNA = True, TreatNULLLiteral = False\<rparr> =
   (Returned (\<lparr>RowsRead = 1, CellsChecked = 2, CellsNullified = 1\<rparr>,
              Some (ReadRowFailed (IOError ''bare quote''))),
    [[''a'', ''b''], ['''', ''x'']])"
proof -
  let ?fs = "\<lparr>openInput = Inr [Rec [''a'', ''b''], Rec [''NA'', ''x''],
                        Err (IOError ''bare quote''), Rec [''NA'', ''NA'']],
      createOutput = None, writeError = (\<lambda>k. None), flushError = None\<rparr>"
  let ?p = "\<lparr>TreatBlanks = True, TreatNA = True, TreatNULLLiteral = False\<rparr>"
  have o: "openInput ?fs =
      Inr (Rec [''a'', ''b''] # map Rec [[''NA'', ''x'']] @
           Err (IOError ''bare quote'') # [Rec [''NA'', ''NA'']])"
    by simp
  have c: "createOutput ?fs = None"
    by simp
  have w: "\<forall>k \<le> length [[''NA'', ''x'']]. writeError ?fs k = None"
    by simp
  have cut: "NullifyFile id
      (?fs\<lparr>openInput := Inr (Rec [''a'', ''b''] # map Rec [[''NA'', ''x'']]),
           flushError := None\<rparr>) ?p =
    (Returned (\<lparr>RowsRead = 1, CellsChecked = 2, CellsNullified = 1\<rparr>, None),
     [[''a'', ''b''], ['''', ''x'']])"
    by code_simp
  from read_error_partial_stats [OF o c w, of id ?p] cut show ?thesis
    by auto
qed

text \<open>
  C6. The transformation is idempotent. For every policy and every input, when a first
  run succeeds and the records it wrote are the input of a second run with the same
  policy, the second run returns, and it returns \<open>CellsNullified = 0\<close>, whether it
  succeeds or stops at an error of its own. The output is read back record by record:
  the records that the writer accepted are the results of the second reader.
\<close>

theorem nullify_twice:
  assumes "NullifyFile up fs policy = (Returned (stats, None), out)"
    and "openInput fs2 = Inr (map Rec out)"
  shows "\<exists>stats2 err2 out2. NullifyFile up fs2 policy = (Returned (stats2, err2), out2) \<and>
           CellsNullified stats2 = 0"
  using nullify_again [OF assms(1) _ assms(2)] by simp

theorem nullify_twice_witness:
  "NullifyFile id
     \<lparr>openInput = Inr [Rec [''a'', ''b''], Rec [''NA'', '' '', ''x''], Rec [''1'']],
      createOutput = None, writeError = (\<lambda>k. None), flushError = None\<rparr>
     \<lparr>TreatBlanks = True, TreatNA = True, TreatNULLLiteral = False\<rparr> =
   (Returned (\<lparr>RowsRead = 2, CellsChecked = 4, CellsNullified = 2\<rparr>, None),
    [[''a'', ''b''], ['''', ''''], [''1'', '''']]) \<and>
   NullifyFile id
     \<lparr>openInput = Inr (map Rec [[''a'', ''b''], ['''', ''''], [''1'', '''']]),
      createOutput = None, writeError = (\<lambda>k. None), flushError = None\<rparr>
     \<lparr>TreatBlanks = True, TreatNA = True, TreatNULLLiteral = False\<rparr> =
   (Returned (\<lparr>RowsRead = 2, CellsChecked = 4, CellsNullified = 0\<rparr>, None),
    [[''a'', ''b''], ['''', ''''], [''1'', '''']])"
proof -
  let ?fs = "\<lparr>openInput = Inr [Rec [''a'', ''b''], Rec [''NA'', '' '', ''x''], Rec [''1'']],
      createOutput = None, writeError = (\<lambda>k. None), flushError = None\<rparr>"
  let ?fs2 = "\<lparr>openInput = Inr (map Rec [[''a'', ''b''], ['''', ''''], [''1'', '''']]),
      createOutput = None, writeError = (\<lambda>k. None), flushError = None\<rparr>"
  let ?p = "\<lparr>TreatBlanks = True, TreatNA = True, TreatNULLLiteral = False\<rparr>"
  have first: "NullifyFile id ?fs ?p =
    (Returned (\<lparr>RowsRead = 2, CellsChecked = 4, CellsNullified = 2\<rparr>, None),
     [[''a'', ''b''], ['''', ''''], [''1'', '''']])"
    by code_simp
  have o2: "openInput ?fs2 = Inr (map Rec [[''a'', ''b''], ['''', ''''], [''1'', '''']])"
    by simp
  have second: "NullifyFile id ?fs2 ?p =
    (Returned (\<lparr>RowsRead = 2, CellsChecked = 4, CellsNullified = 0\<rparr>, None),
     [[''a'', ''b''], ['''', ''''], [''1'', '''']])"
    by code_simp
  from nullify_twice [OF first o2] first second show ?thesis
    by auto
qed

text \<open>
  C10. Under a policy with its three switches off, \<open>IsNull\<close> is false of every string,
  the empty string too. A run under that policy returns \<open>CellsNullified = 0\<close> and changes
  no cell: each data row of the output is the record read at the same place of the
  input, at the header's width, as \<open>normalizeRow\<close> returns it.
\<close>

theorem all_off_policy:
  assumes "\<not> TreatBlanks p" and "\<not> TreatNA p" and "\<not> TreatNULLLiteral p"
  shows "\<not> IsNull up p s \<and> \<not> IsNull up p '''' \<and>
    (\<exists>stats err out. NullifyFile up fs p = (Returned (stats, err), out) \<and>
       CellsNullified stats = 0 \<and>
       (\<forall>headers r. openInput fs = Inr (Rec headers # r) \<longrightarrow>
          (\<forall>i. Suc i < length out \<longrightarrow>
             (\<exists>rec. r ! i = Rec rec \<and>
                normalizeRow rec (int (length headers)) = Returned (out ! Suc i)))))"
proof -
  from assms have off: "\<And>c. \<not> IsNull up p c"
    by (rule IsNull_all_off)
  then have b: "\<And>row. blanked up p row = row"
    by (simp add: blanked_def)
  from off have st: "\<And>row. settled up p row"
    by (simp add: settled_def list_all_iff)
  from NullifyFile_cases [of up fs p]
  have "\<exists>stats err out. NullifyFile up fs p = (Returned (stats, err), out) \<and>
       CellsNullified stats = 0 \<and>
       (\<forall>headers r. openInput fs = Inr (Rec headers # r) \<longrightarrow>
          (\<forall>i. Suc i < length out \<longrightarrow>
             (\<exists>rec. r ! i = Rec rec \<and>
                normalizeRow rec (int (length headers)) = Returned (out ! Suc i))))"
  proof
    assume "\<exists>err. NullifyFile up fs p = (Returned (noStats, Some err), [])"
    then show ?thesis
      by (auto simp: noStats_def)
  next
    assume "\<exists>headers r. openInput fs = Inr (Rec headers # r) \<and> createOutput fs = None \<and>
      writeError fs 0 = None \<and>
      NullifyFile up fs p = nullifyRows up p fs headers noStats [headers] r"
    then obtain h r where o: "openInput fs = Inr (Rec h # r)"
      and n: "NullifyFile up fs p = nullifyRows up p fs h noStats [h] r"
      by blast
    from nullifyRows_returns [of up p fs h "[h]" r] obtain st' err' out' where
      r: "nullifyRows up p fs h noStats [h] r = (Returned (st', err'), out')"
      by blast
    from st have "\<forall>rec. Rec rec \<in> set r \<longrightarrow> settled up p rec"
      by simp
    from nullifyRows_settled [OF this r] have z: "CellsNullified st' = 0"
      by (simp add: noStats_def)
    from nullifyRows_output [OF r] obtain new where
      out: "out' = [h] @ new" and
      l: "list_all2 (\<lambda>x row. \<exists>rec. x = Rec rec \<and> row = blanked up p (paddedRow h rec))
             (take (length new) r) new"
      by blast
    have "\<forall>i. Suc i < length out' \<longrightarrow>
        (\<exists>rec. r ! i = Rec rec \<and>
           normalizeRow rec (int (length h)) = Returned (out' ! Suc i))"
    proof (intro allI impI)
      fix i
      assume "Suc i < length out'"
      with out have i: "i < length new"
        by simp
      from l have "length (take (length new) r) = length new"
        by (rule list_all2_lengthD)
      with i have ir: "i < length r"
        by simp
      from list_all2_nthD2 [OF l i] obtain rec where "take (length new) r ! i = Rec rec"
        and "new ! i = blanked up p (paddedRow h rec)"
        by blast
      with i ir out b show "\<exists>rec. r ! i = Rec rec \<and>
          normalizeRow rec (int (length h)) = Returned (out' ! Suc i)"
        by (simp add: normalizeRow_headers)
    qed
    with n r z o show ?thesis
      by simp
  qed
  with off show ?thesis
    by simp
qed

theorem all_off_policy_witness:
  "\<not> IsNull id \<lparr>TreatBlanks = False, TreatNA = False, TreatNULLLiteral = False\<rparr> ''NULL'' \<and>
   \<not> IsNull id \<lparr>TreatBlanks = False, TreatNA = False, TreatNULLLiteral = False\<rparr> '''' \<and>
   NullifyFile id
     \<lparr>openInput = Inr [Rec [''a'', ''b''], Rec [''NA'', '' '', ''NULL''], Rec ['''']],
      createOutput = None, writeError = (\<lambda>k. None), flushError = None\<rparr>
     \<lparr>TreatBlanks = False, TreatNA = False, TreatNULLLiteral = False\<rparr> =
   (Returned (\<lparr>RowsRead = 2, CellsChecked = 4, CellsNullified = 0\<rparr>, None),
    [[''a'', ''b''], [''NA'', '' ''], ['''', '''']])"
proof -
  let ?fs = "\<lparr>openInput = Inr [Rec [''a'', ''b''], Rec [''NA'', '' '', ''NULL''], Rec ['''']],
      createOutput = None, writeError = (\<lambda>k. None), flushError = None\<rparr>"
  let ?p = "\<lparr>TreatBlanks = False, TreatNA = False, TreatNULLLiteral = False\<rparr>"
  have b: "\<not> TreatBlanks ?p" and n: "\<not> TreatNA ?p" and l: "\<not> TreatNULLLiteral ?p"
    by simp_all
  have run: "NullifyFile id ?fs ?p =
    (Returned (\<lparr>RowsRead = 2, CellsChecked = 4, CellsNullified = 0\<rparr>, None),
     [[''a'', ''b''], [''NA'', '' ''], ['''', '''']])"
    by code_simp
  from all_off_policy [OF b n l, of id "''NULL''" ?fs] run show ?thesis
    by simp
qed

text \<open>
  C4, as the code has it. Scenario A: the policy that treats blanks only, the header
  \<open>a,b\<close> and the data rows \<open>["1",""]\<close> and \<open>[" ","2"]\<close>, every write successful. The
  output rows are \<open>1,\<close> and \<open>,2\<close>, and the statistics are \<open>RowsRead = 2\<close>,
  \<open>CellsChecked = 4\<close> and \<open>CellsNullified = 1\<close>: the cell \<open>" "\<close> is the only one whose
  value changes, the cell \<open>""\<close> of the first row matches the policy and is empty already.
\<close>

theorem scenario_A:
  "NullifyFile up
     \<lparr>openInput = Inr [Rec [''a'', ''b''], Rec [''1'', ''''], Rec ['' '', ''2'']],
      createOutput = None, writeError = (\<lambda>k. None), flushError = None\<rparr>
     \<lparr>TreatBlanks = True, TreatNA = False, TreatNULLLiteral = False\<rparr> =
   (Returned (\<lparr>RowsRead = 2, CellsChecked = 4, CellsNullified = 1\<rparr>, None),
    [[''a'', ''b''], [''1'', ''''], ['''', ''2'']])"
  by code_simp

theorem scenario_A_witness:
  "NullifyFile id
     \<lparr>openInput = Inr [Rec [''a'', ''b''], Rec [''1'', ''''], Rec ['' '', ''2'']],
      createOutput = None, writeError = (\<lambda>k. None), flushError = None\<rparr>
     \<lparr>TreatBlanks = True, TreatNA = False, TreatNULLLiteral = False\<rparr> =
   (Returned (\<lparr>RowsRead = 2, CellsChecked = 4, CellsNullified = 1\<rparr>, None),
    [[''a'', ''b''], [''1'', ''''], ['''', ''2'']])"
  by (rule scenario_A [of id])

text \<open>
  C4, as the specification states it, has \<open>CellsNullified = 2\<close> for Scenario A. The run
  does not return these statistics.
\<close>

theorem scenario_A_not_two:
  "fst (NullifyFile id
     \<lparr>openInput = Inr [Rec [''a'', ''b''], Rec [''1'', ''''], Rec ['' '', ''2'']],
      createOutput = None, writeError = (\<lambda>k. None), flushError = None\<rparr>
     \<lparr>TreatBlanks = True, TreatNA = False, TreatNULLLiteral = False\<rparr>) \<noteq>
   Returned (\<lparr>RowsRead = 2, CellsChecked = 4, CellsNullified = 2\<rparr>, None)"
  by code_simp

end
